theory Spec2Isabelle
  imports Main "HOL-Library.Multiset" "HOL-Library.List_Lexorder" "HOL-Library.Product_Lexorder"
begin

section \<open>JavaScript strings\<close>

text \<open>
  A JavaScript string is a sequence of UTF-16 code units; a code unit is modelled by its
  number. \<open>js\<close> turns an ASCII literal of the source into such a sequence.
\<close>

type_synonym jsstring = "nat list"

definition js :: "string \<Rightarrow> jsstring" where
  "js s = map of_char s"

text \<open>
  The class \<open>\s\<close> of a JavaScript regular expression (WhiteSpace and LineTerminator of
  ECMAScript); \<open>String.prototype.trim\<close> strips the same code units.
\<close>

definition is_ws :: "nat \<Rightarrow> bool" where
  "is_ws c = (c \<in> set [9, 10, 11, 12, 13, 32, 160, 5760, 8232, 8233, 8239, 8287, 12288, 65279]
              \<or> (8192 \<le> c \<and> c \<le> 8202))"

definition is_digit :: "nat \<Rightarrow> bool" where
  "is_digit c = (48 \<le> c \<and> c \<le> 57)"

text \<open>\<open>s.replace(/\s/g, '')\<close>\<close>

definition replace_ws :: "jsstring \<Rightarrow> jsstring" where
  "replace_ws s = filter (\<lambda>c. \<not> is_ws c) s"

text \<open>\<open>s.trim()\<close>\<close>

definition trim :: "jsstring \<Rightarrow> jsstring" where
  "trim s = rev (dropWhile is_ws (rev (dropWhile is_ws s)))"

subsection \<open>Regular expressions\<close>

text \<open>
  The regular expressions of the source use character classes, sequencing and bounded or
  unbounded repetition, and are anchored at both ends, so \<open>re.test(s)\<close> is membership of
  the whole string. They are kept as data and run by a derivative matcher.
\<close>

datatype rexp =
    Zero
  | One
  | Class "nat \<Rightarrow> bool"
  | Alt rexp rexp
  | Seq rexp rexp
  | Star rexp

fun nullable :: "rexp \<Rightarrow> bool" where
  "nullable Zero = False"
| "nullable One = True"
| "nullable (Class p) = False"
| "nullable (Alt r s) = (nullable r \<or> nullable s)"
| "nullable (Seq r s) = (nullable r \<and> nullable s)"
| "nullable (Star r) = True"

fun deriv :: "nat \<Rightarrow> rexp \<Rightarrow> rexp" where
  "deriv c Zero = Zero"
| "deriv c One = Zero"
| "deriv c (Class p) = (if p c then One else Zero)"
| "deriv c (Alt r s) = Alt (deriv c r) (deriv c s)"
| "deriv c (Seq r s) =
     (if nullable r then Alt (Seq (deriv c r) s) (deriv c s) else Seq (deriv c r) s)"
| "deriv c (Star r) = Seq (deriv c r) (Star r)"

fun test :: "rexp \<Rightarrow> jsstring \<Rightarrow> bool" where
  "test r [] = nullable r"
| "test r (c # cs) = test (deriv c r) cs"

text \<open>\<open>r{n}\<close> and \<open>r+\<close>\<close>

fun times_re :: "nat \<Rightarrow> rexp \<Rightarrow> rexp" where
  "times_re 0 r = One"
| "times_re (Suc n) r = Seq r (times_re n r)"

definition plus_re :: "rexp \<Rightarrow> rexp" where
  "plus_re r = Seq r (Star r)"

definition lit :: "string \<Rightarrow> rexp" where
  "lit s = foldr (\<lambda>c r. Seq (Class (\<lambda>x. x = of_char c)) r) s One"

text \<open>\<open>/^(01)[0-9]{9}$/\<close>\<close>

definition phone_re :: rexp where
  "phone_re = Seq (lit ''01'') (times_re 9 (Class is_digit))"

text \<open>\<open>/^[^\s@]+@[^\s@]+\.[^\s@]+$/\<close>\<close>

definition email_re :: rexp where
  "email_re =
     (let part = plus_re (Class (\<lambda>c. \<not> is_ws c \<and> c \<noteq> 64))
      in Seq part (Seq (lit ''@'') (Seq part (Seq (lit ''.'') part))))"

section \<open>Input validation of the booking wizard\<close>

record FormData =
  name :: jsstring
  phone :: jsstring
  email :: jsstring
  quantity :: int

text \<open>
  \<open>validate\<close> of \<open>booking-flow-v2.tsx\<close>. The result object \<open>errors\<close> is the list of its
  keys. \<open>quantity\<close> is always an integer here (it comes from \<open>parseInt(..) || 0\<close>), so
  \<open>Number.isInteger\<close> holds.
\<close>

definition validate :: "FormData \<Rightarrow> string list" where
  "validate formData =
     (if length (trim (name formData)) < 2 then [''name''] else []) @
     (if \<not> test phone_re (replace_ws (phone formData)) then [''phone''] else []) @
     (if email formData \<noteq> [] \<and> \<not> test email_re (email formData) then [''email''] else []) @
     (if quantity formData < 1 \<or> quantity formData > 10 then [''quantity''] else [])"

text \<open>\<open>validate\<close> of \<open>booking-flow.tsx\<close>: the same, without the upper bound on the quantity.\<close>

definition validate_v1 :: "FormData \<Rightarrow> string list" where
  "validate_v1 formData =
     (if length (trim (name formData)) < 2 then [''name''] else []) @
     (if \<not> test phone_re (replace_ws (phone formData)) then [''phone''] else []) @
     (if email formData \<noteq> [] \<and> \<not> test email_re (email formData) then [''email''] else []) @
     (if quantity formData < 1 then [''quantity''] else [])"

text \<open>
  The specification's wording of the phone rule: the string with all whitespace removed
  is \<open>01\<close> followed by exactly nine digits.
\<close>

definition phone_spec :: "jsstring \<Rightarrow> bool" where
  "phone_spec p =
     (\<exists>ds. filter (\<lambda>c. \<not> is_ws c) p = js ''01'' @ ds \<and> length ds = 9 \<and> (\<forall>d \<in> set ds. is_digit d))"


text \<open>The languages of the regular expressions, to state what the matcher accepts.\<close>

definition conc :: "jsstring set \<Rightarrow> jsstring set \<Rightarrow> jsstring set" where
  "conc A B = {u @ v | u v. u \<in> A \<and> v \<in> B}"

inductive_set star :: "jsstring set \<Rightarrow> jsstring set" for A :: "jsstring set" where
  star_empty: "[] \<in> star A"
| star_step: "u \<in> A \<Longrightarrow> v \<in> star A \<Longrightarrow> u @ v \<in> star A"

fun lang :: "rexp \<Rightarrow> jsstring set" where
  "lang Zero = {}"
| "lang One = {[]}"
| "lang (Class p) = {w. \<exists>c. w = [c] \<and> p c}"
| "lang (Alt r s) = lang r \<union> lang s"
| "lang (Seq r s) = conc (lang r) (lang s)"
| "lang (Star r) = star (lang r)"

section \<open>The booking service (\<open>booking-service.ts\<close>)\<close>

subsection \<open>Rows of the remote data store\<close>

datatype theater_type = Vip | Classic

text \<open>The string a template literal makes of a \<open>theater_type\<close> and of a seat number.\<close>

definition type_str :: "theater_type \<Rightarrow> jsstring" where
  "type_str t = (case t of Vip \<Rightarrow> js ''vip'' | Classic \<Rightarrow> js ''classic'')"

function num_str :: "nat \<Rightarrow> jsstring" where
  "num_str n = (if n < 10 then [48 + n] else num_str (n div 10) @ [48 + n mod 10])"
  by pat_completeness auto
termination
  by (relation "measure (\<lambda>n. n)") auto

text \<open>
  \<open>{ row: string; seat_number: number }\<close>, and the \<open>Seat\<close> interface, a row of the table
  \<open>theater_seats\<close>, which has these two fields among its own. Seat numbers are counted
  from 1, so they are natural numbers.
\<close>

record seat_ref =
  row :: jsstring
  seat_number :: nat

record Seat = seat_ref +
  seat_id :: jsstring
  theater_type :: theater_type
  is_available :: bool
  created_at :: jsstring

text \<open>\<open>BookingData\<close> without \<open>status\<close>, the argument of \<open>createBooking\<close>.\<close>

record BookingData =
  bd_name :: jsstring
  bd_phone :: jsstring
  bd_email :: "jsstring option"
  bd_theater_type :: theater_type
  bd_seats :: "seat_ref list"
  bd_payment_method :: jsstring
  bd_receipt_url :: "jsstring option"

text \<open>A row of the table \<open>bookings\<close> and a row of the table \<open>booking_seats\<close>.\<close>

record booking =
  bk_id :: jsstring
  bk_name :: jsstring
  bk_phone :: jsstring
  bk_email :: "jsstring option"
  bk_theater_type :: theater_type
  bk_payment_method :: jsstring
  bk_receipt_url :: "jsstring option"
  bk_status :: jsstring
  bk_total_seats :: nat

record booking_seat =
  bs_booking_id :: jsstring
  bs_row :: jsstring
  bs_seat_number :: nat
  bs_theater_type :: theater_type

record store =
  theater_seats :: "Seat list"
  bookings :: "booking list"
  booking_seats :: "booking_seat list"

text \<open>
  The data model's invariant on the table of seats (the schema's
  \<open>UNIQUE(ticket_type, row_letter, seat_number)\<close>).
\<close>

definition seats_unique :: "store \<Rightarrow> bool" where
  "seats_unique st = distinct (map (\<lambda>s. (theater_type s, row s, seat_number s)) (theater_seats st))"

subsection \<open>Calls to the store\<close>

text \<open>
  Every call to the store returns \<open>{ data, error }\<close>. Whether a call fails is decided
  outside the program: each call takes the error the store answers with, if any. A call
  that fails changes nothing.
\<close>

datatype error = StoreError string

text \<open>\<open>.order('row', { ascending: true }).order('seat_number', { ascending: true })\<close>\<close>

definition order_row_number :: "'a seat_ref_scheme list \<Rightarrow> 'a seat_ref_scheme list" where
  "order_row_number rows = sort_key (\<lambda>s. (row s, seat_number s)) rows"

text \<open>
  \<open>supabase.from('theater_seats').select(..).eq(..).eq(..).order(..).order(..)\<close>: the
  store keeps the rows that pass the filters and sorts them by row, compared code unit by
  code unit, and then by seat number.
\<close>

definition select_seats :: "error option \<Rightarrow> store \<Rightarrow> (Seat \<Rightarrow> bool) \<Rightarrow> error + Seat list" where
  "select_seats fault st cond =
     (case fault of
        Some e \<Rightarrow> Inl e
      | None \<Rightarrow> Inr (order_row_number (filter cond (theater_seats st))))"

text \<open>\<open>supabase.from('bookings').insert(..).select().single()\<close>: the store gives the row its id.\<close>

definition insert_booking :: "error option \<Rightarrow> store \<Rightarrow> booking \<Rightarrow> (error + booking) \<times> store" where
  "insert_booking fault st b =
     (case fault of
        Some e \<Rightarrow> (Inl e, st)
      | None \<Rightarrow> (Inr b, st\<lparr>bookings := bookings st @ [b]\<rparr>))"

text \<open>\<open>supabase.from('booking_seats').insert(rows)\<close>\<close>

definition insert_booking_seats :: "error option \<Rightarrow> store \<Rightarrow> booking_seat list \<Rightarrow> error option \<times> store" where
  "insert_booking_seats fault st rows =
     (case fault of
        Some e \<Rightarrow> (Some e, st)
      | None \<Rightarrow> (None, st\<lparr>booking_seats := booking_seats st @ rows\<rparr>))"

text \<open>\<open>supabase.from('theater_seats').update({ is_available: false }).in('id', seatIds)\<close>\<close>

definition update_unavailable :: "error option \<Rightarrow> store \<Rightarrow> jsstring list \<Rightarrow> error option \<times> store" where
  "update_unavailable fault st seatIds =
     (case fault of
        Some e \<Rightarrow> (Some e, st)
      | None \<Rightarrow>
          (None, st\<lparr>theater_seats :=
             map (\<lambda>s. if seat_id s \<in> set seatIds then s\<lparr>is_available := False\<rparr> else s) (theater_seats st)\<rparr>))"

subsection \<open>The service functions\<close>

text \<open>
  \<open>try { .. } catch (error) { .. }\<close>: the body's result, or the handler's on an error.
  The \<open>console.error\<close> of the handlers is not modelled.
\<close>

definition try_catch :: "error + 'a \<Rightarrow> (error \<Rightarrow> error + 'a) \<Rightarrow> error + 'a" where
  "try_catch body handler = (case body of Inl e \<Rightarrow> handler e | Inr v \<Rightarrow> Inr v)"

definition getAvailableSeats :: "error option \<Rightarrow> store \<Rightarrow> theater_type \<Rightarrow> error + Seat list" where
  "getAvailableSeats fault st theaterType =
     try_catch
       (case select_seats fault st (\<lambda>s. theater_type s = theaterType \<and> is_available s = True) of
          Inl e \<Rightarrow> Inl e
        | Inr data \<Rightarrow> Inr data)
       (\<lambda>e. Inr [])"

definition getBookedSeats :: "error option \<Rightarrow> store \<Rightarrow> theater_type \<Rightarrow> error + seat_ref list" where
  "getBookedSeats fault st theaterType =
     try_catch
       (case select_seats fault st (\<lambda>s. theater_type s = theaterType \<and> is_available s = False) of
          Inl e \<Rightarrow> Inl e
        | Inr data \<Rightarrow> Inr (map (\<lambda>s. \<lparr>row = row s, seat_number = seat_number s\<rparr>) data))
       (\<lambda>e. Inr [])"

text \<open>What the store decides during one \<open>createBooking\<close>: the new id and the three answers.\<close>

record store_env =
  new_id :: jsstring
  booking_error :: "error option"
  seats_error :: "error option"
  update_error :: "error option"

text \<open>\<open>x || null\<close> on an optional string: missing and empty both give null.\<close>

definition or_null :: "jsstring option \<Rightarrow> jsstring option" where
  "or_null x = (case x of None \<Rightarrow> None | Some s \<Rightarrow> if s = [] then None else Some s)"

text \<open>
  \<open>createBooking\<close>. Each of the three calls throws its error when it has one; the
  handler logs the error and throws it again, so the error is the result. The store it
  leaves behind is returned with it. \<open>seat_id_of\<close> is the id that the update looks for:
  \<open>`${bookingData.theater_type}-${seat.row}-${seat.seat_number}`\<close>.
\<close>

definition seat_id_of :: "theater_type \<Rightarrow> 'a seat_ref_scheme \<Rightarrow> jsstring" where
  "seat_id_of t seat = type_str t @ js ''-'' @ row seat @ js ''-'' @ num_str (seat_number seat)"

definition createBooking :: "store_env \<Rightarrow> store \<Rightarrow> BookingData \<Rightarrow> (error + booking) \<times> store" where
  "createBooking env st bookingData =
     (case insert_booking (booking_error env) st
             \<lparr>bk_id = new_id env,
              bk_name = bd_name bookingData,
              bk_phone = bd_phone bookingData,
              bk_email = or_null (bd_email bookingData),
              bk_theater_type = bd_theater_type bookingData,
              bk_payment_method = bd_payment_method bookingData,
              bk_receipt_url = or_null (bd_receipt_url bookingData),
              bk_status = js ''completed'',
              bk_total_seats = length (bd_seats bookingData)\<rparr> of
        (Inl bookingError, st1) \<Rightarrow> (Inl bookingError, st1)
      | (Inr booking, st1) \<Rightarrow>
          (let bookingSeatsData =
                 map (\<lambda>seat. \<lparr>bs_booking_id = bk_id booking,
                               bs_row = row seat,
                               bs_seat_number = seat_number seat,
                               bs_theater_type = bd_theater_type bookingData\<rparr>)
                     (bd_seats bookingData)
           in case insert_booking_seats (seats_error env) st1 bookingSeatsData of
                (Some seatsError, st2) \<Rightarrow> (Inl seatsError, st2)
              | (None, st2) \<Rightarrow>
                  (let seatIds = map (seat_id_of (bd_theater_type bookingData)) (bd_seats bookingData)
                   in case update_unavailable (update_error env) st2 seatIds of
                        (Some updateError, st3) \<Rightarrow> (Inl updateError, st3)
                      | (None, st3) \<Rightarrow> (Inr booking, st3))))"



section \<open>The ticket generator (\<open>ticket-generator.ts\<close>)\<close>

record TicketInfo =
  bookingId :: jsstring
  guestName :: jsstring
  ticketType :: theater_type
  ticketRow :: jsstring
  seatNumber :: nat
  eventName :: jsstring
  eventDate :: jsstring
  ticketPrice :: jsstring

text \<open>
  A promise is resolved with a value, rejected with an error, or stays pending for ever.
\<close>

datatype 'a promise = Resolved 'a | Rejected error | Pending

text \<open>
  The browser's part: for each canvas that \<open>document.createElement('canvas')\<close> makes,
  whether \<open>getContext('2d')\<close> gives a context and what \<open>toBlob\<close> hands to its callback
  once the ticket is painted (null when the image cannot be encoded). The painting calls
  have no other effect and no result. The state of the browser is the number of canvases
  made and the files whose download was triggered, oldest first.
\<close>

type_synonym blob = "nat list"

record canvas =
  context2d :: bool
  toBlob :: "blob option"

record browser =
  canvases :: nat
  downloads :: "(jsstring \<times> blob) list"

definition generateIndividualTicket ::
  "(nat \<Rightarrow> canvas) \<Rightarrow> TicketInfo \<Rightarrow> browser \<Rightarrow> blob promise \<times> browser" where
  "generateIndividualTicket document ticketInfo b =
     (let canvas = document (canvases b);
          b' = b\<lparr>canvases := Suc (canvases b)\<rparr>
      in if \<not> context2d canvas then (Pending, b')
         else (Resolved (case toBlob canvas of None \<Rightarrow> [] | Some blob \<Rightarrow> blob), b'))"

text \<open>\<open>`Ticket-${ticket.bookingId}-${ticket.row}${ticket.seatNumber}.png`\<close>\<close>

definition download_name :: "TicketInfo \<Rightarrow> jsstring" where
  "download_name ticket =
     js ''Ticket-'' @ bookingId ticket @ js ''-'' @ ticketRow ticket @ num_str (seatNumber ticket)
       @ js ''.png''"

text \<open>
  The click on the anchor that triggers the download; the anchor and the object URL are
  removed again right after.
\<close>

definition click_download :: "TicketInfo \<Rightarrow> blob \<Rightarrow> browser \<Rightarrow> browser" where
  "click_download ticket blob b = b\<lparr>downloads := downloads b @ [(download_name ticket, blob)]\<rparr>"

text \<open>
  \<open>await\<close> on a pending promise never continues, and on a rejected one throws. The pause
  of 300 ms between two downloads always ends.
\<close>

fun downloadMultipleTickets ::
  "(nat \<Rightarrow> canvas) \<Rightarrow> TicketInfo list \<Rightarrow> browser \<Rightarrow> unit promise \<times> browser" where
  "downloadMultipleTickets document [] b = (Resolved (), b)"
| "downloadMultipleTickets document (ticket # tickets) b =
     (case generateIndividualTicket document ticket b of
        (Resolved blob, b1) \<Rightarrow> downloadMultipleTickets document tickets (click_download ticket blob b1)
      | (Rejected e, b1) \<Rightarrow> (Rejected e, b1)
      | (Pending, b1) \<Rightarrow> (Pending, b1))"

definition downloadSingleTicket ::
  "(nat \<Rightarrow> canvas) \<Rightarrow> TicketInfo \<Rightarrow> browser \<Rightarrow> unit promise \<times> browser" where
  "downloadSingleTicket document ticket b =
     (case generateIndividualTicket document ticket b of
        (Resolved blob, b1) \<Rightarrow> (Resolved (), click_download ticket blob b1)
      | (Rejected e, b1) \<Rightarrow> (Rejected e, b1)
      | (Pending, b1) \<Rightarrow> (Pending, b1))"

section \<open>The booking wizard (\<open>booking-flow-v2.tsx\<close>)\<close>

text \<open>
  \<open>seatLayout\<close> comes from \<open>seat-layout.ts\<close>, which is not among the sources: it is a
  parameter, a list of rows with their seat counts for each tier.
\<close>

type_synonym layout = "theater_type \<Rightarrow> (jsstring \<times> nat) list"

text \<open>The key of a seat in the set of booked seats: \<open>`${s.row}-${s.seat_number}`\<close>.\<close>

definition seat_key :: "'a seat_ref_scheme \<Rightarrow> jsstring" where
  "seat_key s = row s @ js ''-'' @ num_str (seat_number s)"

record wizard =
  formData :: FormData
  selectedSeats :: "seat_ref list"
  bookedSeats :: "jsstring set"
  maxQuantity :: int
  isLoading :: bool
  toasts :: "jsstring list"

text \<open>
  \<open>loadBookedSeats\<close>. The toast of the handler is shown in the language of the page; its
  English wording stands for it.
\<close>

definition loadBookedSeats ::
  "layout \<Rightarrow> error option \<Rightarrow> store \<Rightarrow> theater_type \<Rightarrow> wizard \<Rightarrow> wizard" where
  "loadBookedSeats seatLayout fault st type w =
     (let w1 = w\<lparr>isLoading := True\<rparr>;
          w2 = (case getBookedSeats fault st type of
                  Inr booked \<Rightarrow>
                    (let bookedSet = set (map seat_key booked);
                         available = seatLayout type;
                         totalSeats = sum_list (map snd available);
                         maxAvailable = int totalSeats - int (card bookedSet)
                     in w1\<lparr>bookedSeats := bookedSet, maxQuantity := min maxAvailable 10\<rparr>)
                | Inl e \<Rightarrow> w1\<lparr>toasts := toasts w1 @ [js ''Error loading seats'']\<rparr>)
      in w2\<lparr>isLoading := False\<rparr>)"

text \<open>
  \<open>handleQuantityChange\<close>; the argument is the result of \<open>parseInt(e.target.value)\<close>,
  \<open>None\<close> for NaN.
\<close>

definition or_zero :: "int option \<Rightarrow> int" where
  "or_zero x = (case x of None \<Rightarrow> 0 | Some n \<Rightarrow> n)"

definition handleQuantityChange :: "int option \<Rightarrow> wizard \<Rightarrow> wizard" where
  "handleQuantityChange parsed w =
     (let value = min (or_zero parsed) (maxQuantity w)
      in w\<lparr>formData := (formData w)\<lparr>quantity := value\<rparr>, selectedSeats := []\<rparr>)"

text \<open>The tickets that \<open>handlePayment\<close> builds from the selected seats.\<close>

definition ticketInfos ::
  "jsstring \<Rightarrow> FormData \<Rightarrow> theater_type option \<Rightarrow> jsstring \<Rightarrow> seat_ref list \<Rightarrow> TicketInfo list" where
  "ticketInfos bId fd ticketType_opt today seats =
     map (\<lambda>seat.
            \<lparr>bookingId = bId,
             guestName = name fd,
             ticketType = (case ticketType_opt of None \<Rightarrow> Classic | Some t \<Rightarrow> t),
             ticketRow = row seat,
             seatNumber = seat_number seat,
             eventName = js ''Cinema Event 2026'',
             eventDate = today,
             ticketPrice = (if ticketType_opt = Some Vip then js ''500'' else js ''350'')\<rparr>)
         seats"

section \<open>The seat picker (\<open>seat-picker.tsx\<close>)\<close>

text \<open>\<open>Array.prototype.findIndex\<close>: the first index where the test holds, or -1.\<close>

fun findIndex :: "('a \<Rightarrow> bool) \<Rightarrow> 'a list \<Rightarrow> int" where
  "findIndex p [] = -1"
| "findIndex p (x # xs) = (if p x then 0 else (let i = findIndex p xs in if i < 0 then -1 else i + 1))"

text \<open>\<open>next.splice(idx, 1)\<close> for an index inside the array.\<close>

definition splice1 :: "nat \<Rightarrow> 'a list \<Rightarrow> 'a list" where
  "splice1 idx xs = take idx xs @ drop (Suc idx) xs"

text \<open>
  \<open>toggle\<close>. The property \<open>available\<close> of the picker holds the keys of the booked seats
  (the wizard passes \<open>bookedSeats\<close>). The result is the new state \<open>selected\<close>.
\<close>

definition toggle ::
  "jsstring set \<Rightarrow> int \<Rightarrow> seat_ref \<Rightarrow> seat_ref list \<Rightarrow> seat_ref list" where
  "toggle available qty seat selected =
     (let key = seat_key seat
      in if key \<in> available then selected
         else
           (let idx = findIndex (\<lambda>s. row s = row seat \<and> seat_number s = seat_number seat) selected
            in if idx \<ge> 0 then splice1 (nat idx) selected
               else if int (length selected) < qty then selected @ [seat]
               else selected))"

text \<open>The selection after a sequence of clicks, from the empty selection of a new picker.\<close>

definition toggles :: "jsstring set \<Rightarrow> int \<Rightarrow> seat_ref list \<Rightarrow> seat_ref list" where
  "toggles available qty clicks = foldl (\<lambda>selected seat. toggle available qty seat selected) [] clicks"



text \<open>
  What every reachable selection satisfies: no selected seat is booked, no seat is selected
  twice, and the selection is no longer than the requested quantity allows.
\<close>

definition picker_inv :: "jsstring set \<Rightarrow> int \<Rightarrow> seat_ref list \<Rightarrow> bool" where
  "picker_inv available qty selected \<longleftrightarrow>
     (\<forall>s \<in> set selected. seat_key s \<notin> available) \<and>
     distinct (map (\<lambda>s. (row s, seat_number s)) selected) \<and>
     int (length selected) \<le> max 0 qty"

section \<open>Sample data\<close>

text \<open>
  A store seeded as the repository's schema does it: the id of a seat is a UUID that the
  store generates. The booking is the one of the specification's end-to-end scenario.
\<close>

definition sample_store :: store where
  "sample_store =
     \<lparr>theater_seats =
        [\<lparr>row = js ''B'', seat_number = 1, seat_id = js ''0e37df36-f698-11e6-8dd4-cb9ced3df976'',
          theater_type = Vip, is_available = True, created_at = js ''2026-02-28''\<rparr>,
         \<lparr>row = js ''A'', seat_number = 2, seat_id = js ''16fd2706-8baf-433b-82eb-8c7fada847da'',
          theater_type = Vip, is_available = False, created_at = js ''2026-02-28''\<rparr>,
         \<lparr>row = js ''A'', seat_number = 1, seat_id = js ''7c9e6679-7425-40de-944b-e07fc1f90ae7'',
          theater_type = Vip, is_available = True, created_at = js ''2026-02-28''\<rparr>,
         \<lparr>row = js ''A'', seat_number = 1, seat_id = js ''886313e1-3b8a-5372-9b90-0c9aee199e5d'',
          theater_type = Classic, is_available = True, created_at = js ''2026-02-28''\<rparr>],
      bookings = [],
      booking_seats = []\<rparr>"

definition sample_booking :: BookingData where
  "sample_booking =
     \<lparr>bd_name = js ''Test User'', bd_phone = js ''01011112222'', bd_email = Some [],
      bd_theater_type = Vip, bd_seats = [\<lparr>row = js ''A'', seat_number = 1\<rparr>],
      bd_payment_method = js ''vodafone'', bd_receipt_url = Some []\<rparr>"

definition store_ok :: store_env where
  "store_ok = \<lparr>new_id = js ''RT-1'', booking_error = None, seats_error = None, update_error = None\<rparr>"

definition claims_fail :: store_env where
  "claims_fail = store_ok\<lparr>seats_error := Some (StoreError ''insert into booking_seats failed'')\<rparr>"




text \<open>
  The VIP tier of the seeded layout (rows A, B, C with 7, 8 and 8 seats) with all seats
  booked but C6, C7 and C8.
\<close>

definition vip_layout :: layout where
  "vip_layout t = (case t of Vip \<Rightarrow> [(js ''A'', 7), (js ''B'', 8), (js ''C'', 8)] | Classic \<Rightarrow> [])"

definition seed_row :: "theater_type \<Rightarrow> string \<Rightarrow> nat \<Rightarrow> nat \<Rightarrow> bool \<Rightarrow> Seat list" where
  "seed_row t r lo hi free =
     map (\<lambda>i. \<lparr>row = js r, seat_number = i, seat_id = js ''uuid-'' @ js r @ num_str i,
                theater_type = t, is_available = free, created_at = js ''2026-02-28''\<rparr>)
         [lo..<Suc hi]"

definition nearly_sold_out :: store where
  "nearly_sold_out =
     \<lparr>theater_seats = seed_row Vip ''A'' 1 7 False @ seed_row Vip ''B'' 1 8 False
                       @ seed_row Vip ''C'' 1 5 False @ seed_row Vip ''C'' 6 8 True,
      bookings = [], booking_seats = []\<rparr>"

definition sample_form :: FormData where
  "sample_form = \<lparr>name = js ''Test User'', phone = js ''01011112222'', email = [], quantity = 1\<rparr>"

definition new_wizard :: wizard where
  "new_wizard = \<lparr>formData = \<lparr>name = [], phone = [], email = [], quantity = 1\<rparr>,
                 selectedSeats = [], bookedSeats = {}, maxQuantity = 10, isLoading = False, toasts = []\<rparr>"

definition sample_ticket :: TicketInfo where
  "sample_ticket =
     \<lparr>bookingId = js ''RT-1'', guestName = js ''Test User'', ticketType = Vip,
      ticketRow = js ''A'', seatNumber = 1, eventName = js ''Cinema Event 2026'',
      eventDate = js ''2/28/2026'', ticketPrice = js ''500''\<rparr>"

text \<open>A browser that gives no drawing context, and one that paints every canvas.\<close>

definition no_context :: "nat \<Rightarrow> canvas" where
  "no_context k = \<lparr>context2d = False, toBlob = None\<rparr>"

definition painted :: "nat \<Rightarrow> canvas" where
  "painted k = \<lparr>context2d = True, toBlob = Some [137, 80, 78, 71]\<rparr>"

definition new_browser :: browser where
  "new_browser = \<lparr>canvases = 0, downloads = []\<rparr>"

section \<open>Properties of the regular expressions\<close>

lemma concI: "u \<in> A \<Longrightarrow> v \<in> B \<Longrightarrow> u @ v \<in> conc A B"
  unfolding conc_def by blast

lemma concE: "w \<in> conc A B \<Longrightarrow> (\<And>u v. w = u @ v \<Longrightarrow> u \<in> A \<Longrightarrow> v \<in> B \<Longrightarrow> P) \<Longrightarrow> P"
  unfolding conc_def by blast

lemma nil_in_conc: "[] \<in> conc A B \<longleftrightarrow> [] \<in> A \<and> [] \<in> B"
proof
  assume "[] \<in> conc A B"
  then show "[] \<in> A \<and> [] \<in> B" by (elim concE) simp
next
  assume "[] \<in> A \<and> [] \<in> B"
  then show "[] \<in> conc A B" using concI [of "[]" A "[]" B] by simp
qed

lemma cons_in_conc:
  "c # w \<in> conc A B \<longleftrightarrow>
     (\<exists>u v. w = u @ v \<and> c # u \<in> A \<and> v \<in> B) \<or> ([] \<in> A \<and> c # w \<in> B)"
proof
  assume "c # w \<in> conc A B"
  then obtain u v where uv: "c # w = u @ v" "u \<in> A" "v \<in> B" by (elim concE)
  show "(\<exists>u v. w = u @ v \<and> c # u \<in> A \<and> v \<in> B) \<or> ([] \<in> A \<and> c # w \<in> B)"
  proof (cases u)
    case Nil
    with uv show ?thesis by simp
  next
    case (Cons a u')
    with uv have "a = c" "w = u' @ v" by simp_all
    with Cons uv show ?thesis by blast
  qed
next
  assume "(\<exists>u v. w = u @ v \<and> c # u \<in> A \<and> v \<in> B) \<or> ([] \<in> A \<and> c # w \<in> B)"
  then show "c # w \<in> conc A B"
  proof
    assume "\<exists>u v. w = u @ v \<and> c # u \<in> A \<and> v \<in> B"
    then obtain u v where "w = u @ v" "c # u \<in> A" "v \<in> B" by blast
    then show ?thesis using concI [of "c # u" A v B] by simp
  next
    assume "[] \<in> A \<and> c # w \<in> B"
    then show ?thesis using concI [of "[]" A "c # w" B] by simp
  qed
qed


lemma star_cons_split:
  assumes "x \<in> star A" "x = c # w"
  shows "\<exists>u v. w = u @ v \<and> c # u \<in> A \<and> v \<in> star A"
  using assms
proof (induction arbitrary: w rule: star.induct)
  case star_empty
  then show ?case by simp
next
  case (star_step u v)
  show ?case
  proof (cases u)
    case Nil
    with star_step.prems have "v = c # w" by simp
    then show ?thesis by (rule star_step.IH)
  next
    case (Cons a u')
    with star_step.prems have "a = c" "w = u' @ v" by simp_all
    with Cons star_step.hyps show ?thesis by blast
  qed
qed

lemma cons_in_star:
  "c # w \<in> star A \<longleftrightarrow> (\<exists>u v. w = u @ v \<and> c # u \<in> A \<and> v \<in> star A)"
proof
  assume "c # w \<in> star A"
  then show "\<exists>u v. w = u @ v \<and> c # u \<in> A \<and> v \<in> star A"
    by (rule star_cons_split) simp
next
  assume "\<exists>u v. w = u @ v \<and> c # u \<in> A \<and> v \<in> star A"
  then obtain u v where "w = u @ v" "c # u \<in> A" "v \<in> star A" by blast
  then show "c # w \<in> star A"
    using star_step [of "c # u" A v] by simp
qed

lemma nullable_lang: "nullable r \<longleftrightarrow> [] \<in> lang r"
  by (induction r) (simp_all add: nil_in_conc star_empty)

lemma deriv_lang: "w \<in> lang (deriv c r) \<longleftrightarrow> c # w \<in> lang r"
proof (induction r arbitrary: w)
  case Zero
  show ?case by simp
next
  case One
  show ?case by simp
next
  case (Class p)
  show ?case by simp
next
  case (Alt r s)
  then show ?case by simp
next
  case (Seq r s)
  have "w \<in> conc (lang (deriv c r)) (lang s) \<longleftrightarrow> (\<exists>u v. w = u @ v \<and> c # u \<in> lang r \<and> v \<in> lang s)"
    unfolding conc_def using Seq.IH(1) by blast
  with Seq.IH(2) show ?case
    by (simp add: cons_in_conc nullable_lang)
next
  case (Star r)
  have "w \<in> conc (lang (deriv c r)) (star (lang r)) \<longleftrightarrow>
          (\<exists>u v. w = u @ v \<and> c # u \<in> lang r \<and> v \<in> star (lang r))"
    unfolding conc_def using Star.IH by blast
  then show ?case
    by (simp add: cons_in_star)
qed

lemma test_lang: "test r w \<longleftrightarrow> w \<in> lang r"
  by (induction w arbitrary: r) (simp_all add: nullable_lang deriv_lang)


lemma lang_times_class:
  "lang (times_re n (Class p)) = {w. length w = n \<and> (\<forall>c \<in> set w. p c)}"
proof (induction n)
  case 0
  show ?case by auto
next
  case (Suc n)
  show ?case
  proof (rule set_eqI)
    fix w
    show "w \<in> lang (times_re (Suc n) (Class p)) \<longleftrightarrow> w \<in> {w. length w = Suc n \<and> (\<forall>c \<in> set w. p c)}"
    proof (cases w)
      case Nil
      then show ?thesis by (simp add: nil_in_conc)
    next
      case (Cons a w')
      then show ?thesis by (auto simp add: cons_in_conc Suc)
    qed
  qed
qed

lemma lang_lit_cons: "lang (lit (c # s)) = conc {[of_char c]} (lang (lit s))"
  by (simp add: lit_def)

lemma conc_single: "conc {u} {v} = {u @ v}"
  unfolding conc_def by simp

lemma lang_lit: "lang (lit s) = {js s}"
proof (induction s)
  case Nil
  show ?case by (simp add: lit_def js_def)
next
  case (Cons c s)
  then show ?case by (simp add: lang_lit_cons conc_single js_def)
qed

lemma test_phone_re:
  "test phone_re s \<longleftrightarrow> (\<exists>ds. s = js ''01'' @ ds \<and> length ds = 9 \<and> (\<forall>d \<in> set ds. is_digit d))"
  unfolding test_lang phone_re_def lang.simps lang_lit lang_times_class conc_def
  by blast

lemma times_numeral: "times_re (numeral k) r = Seq r (times_re (pred_numeral k) r)"
  by (simp add: numeral_eq_Suc)


text \<open>
  C4. For every phone string, \<open>validate\<close> (of both wizards) leaves the field \<open>phone\<close>
  without an error if and only if the string with all whitespace removed is \<open>01\<close>
  followed by exactly nine digits. In particular \<open>0101234567\<close> and \<open>+201012345678\<close> are
  rejected and \<open>01012345678\<close> is accepted, whatever the other fields hold.
\<close>

theorem validate_phone_rule:
  "(''phone'' \<notin> set (validate fd) \<longleftrightarrow> phone_spec (phone fd)) \<and>
   (''phone'' \<notin> set (validate_v1 fd) \<longleftrightarrow> phone_spec (phone fd)) \<and>
   ''phone'' \<in> set (validate (fd\<lparr>phone := js ''0101234567''\<rparr>)) \<and>
   ''phone'' \<notin> set (validate (fd\<lparr>phone := js ''01012345678''\<rparr>)) \<and>
   ''phone'' \<in> set (validate (fd\<lparr>phone := js ''+201012345678''\<rparr>)) \<and>
   ''phone'' \<in> set (validate_v1 (fd\<lparr>phone := js ''0101234567''\<rparr>)) \<and>
   ''phone'' \<notin> set (validate_v1 (fd\<lparr>phone := js ''01012345678''\<rparr>)) \<and>
   ''phone'' \<in> set (validate_v1 (fd\<lparr>phone := js ''+201012345678''\<rparr>))"
proof -
  have spec: "test phone_re (replace_ws p) \<longleftrightarrow> phone_spec p" for p
    by (auto simp add: phone_spec_def test_phone_re replace_ws_def)
  have v2: "''phone'' \<in> set (validate fd) \<longleftrightarrow> \<not> test phone_re (replace_ws (phone fd))" for fd
    by (simp add: validate_def)
  have v1: "''phone'' \<in> set (validate_v1 fd) \<longleftrightarrow> \<not> test phone_re (replace_ws (phone fd))" for fd
    by (simp add: validate_v1_def)
  have short: "\<not> test phone_re (replace_ws (js ''0101234567''))"
    by (simp add: phone_re_def replace_ws_def js_def is_ws_def is_digit_def lit_def times_numeral)
  have good: "test phone_re (replace_ws (js ''01012345678''))"
    by (simp add: phone_re_def replace_ws_def js_def is_ws_def is_digit_def lit_def times_numeral)
  have plus: "\<not> test phone_re (replace_ws (js ''+201012345678''))"
    by (simp add: phone_re_def replace_ws_def js_def is_ws_def is_digit_def lit_def times_numeral)
  show ?thesis
    using short good plus by (simp add: v1 v2 spec [symmetric])
qed

theorem validate_phone_rule_witness:
  "''phone'' \<notin> set (validate \<lparr>name = js ''Test User'', phone = js ''010 1111 2222'', email = [], quantity = 1\<rparr>) \<and>
   phone_spec (js ''010 1111 2222'')"
proof -
  have "''phone'' \<notin> set (validate \<lparr>name = js ''Test User'', phone = js ''010 1111 2222'', email = [], quantity = 1\<rparr>)"
    by (simp add: validate_def phone_re_def replace_ws_def js_def is_ws_def is_digit_def lit_def times_numeral)
  then show ?thesis
    using validate_phone_rule [of "\<lparr>name = js ''Test User'', phone = js ''010 1111 2222'', email = [], quantity = 1\<rparr>"]
    by simp
qed


section \<open>Properties of the booking service\<close>

lemma createBooking_result:
  assumes "booking_error env = None" "seats_error env = None" "update_error env = None"
  shows "createBooking env st d =
     (let b = \<lparr>bk_id = new_id env, bk_name = bd_name d, bk_phone = bd_phone d,
                bk_email = or_null (bd_email d), bk_theater_type = bd_theater_type d,
                bk_payment_method = bd_payment_method d, bk_receipt_url = or_null (bd_receipt_url d),
                bk_status = js ''completed'', bk_total_seats = length (bd_seats d)\<rparr>
      in (Inr b,
          \<lparr>theater_seats =
             map (\<lambda>s. if seat_id s \<in> seat_id_of (bd_theater_type d) ` set (bd_seats d)
                       then s\<lparr>is_available := False\<rparr> else s) (theater_seats st),
           bookings = bookings st @ [b],
           booking_seats = booking_seats st @
             map (\<lambda>seat. \<lparr>bs_booking_id = new_id env, bs_row = row seat,
                           bs_seat_number = seat_number seat,
                           bs_theater_type = bd_theater_type d\<rparr>) (bd_seats d)\<rparr>))"
  using assms
  by (simp add: createBooking_def insert_booking_def insert_booking_seats_def
      update_unavailable_def Let_def)

lemma createBooking_success:
  assumes "createBooking env st d = (Inr b, st')"
  shows "booking_error env = None \<and> seats_error env = None \<and> update_error env = None"
  using assms
  by (auto simp add: createBooking_def insert_booking_def insert_booking_seats_def
      update_unavailable_def Let_def split: option.splits)

lemma sample_booking_result:
  "createBooking store_ok sample_store sample_booking =
     (Inr \<lparr>bk_id = js ''RT-1'', bk_name = js ''Test User'', bk_phone = js ''01011112222'',
            bk_email = None, bk_theater_type = Vip, bk_payment_method = js ''vodafone'',
            bk_receipt_url = None, bk_status = js ''completed'', bk_total_seats = 1\<rparr>,
      sample_store
        \<lparr>bookings := [\<lparr>bk_id = js ''RT-1'', bk_name = js ''Test User'', bk_phone = js ''01011112222'',
            bk_email = None, bk_theater_type = Vip, bk_payment_method = js ''vodafone'',
            bk_receipt_url = None, bk_status = js ''completed'', bk_total_seats = 1\<rparr>],
         booking_seats := [\<lparr>bs_booking_id = js ''RT-1'', bs_row = js ''A'', bs_seat_number = 1,
            bs_theater_type = Vip\<rparr>]\<rparr>)"
  by (simp add: createBooking_def insert_booking_def insert_booking_seats_def update_unavailable_def
      store_ok_def sample_store_def sample_booking_def or_null_def seat_id_of_def type_str_def js_def)

text \<open>
  C2. If the insert of the booking, the insert of the seat claims or the update of the
  availability fails, \<open>createBooking\<close> ends with that error and undoes nothing: when the
  first call fails the store is unchanged, when the second fails the store holds the new
  booking row, and when the third fails it holds the booking row and the claim rows.
\<close>

theorem createBooking_no_rollback:
  "(booking_error env = Some e \<longrightarrow> createBooking env st d = (Inl e, st)) \<and>
   (booking_error env = None \<and> seats_error env = Some e \<longrightarrow>
      fst (createBooking env st d) = Inl e \<and>
      (\<exists>b. bk_id b = new_id env \<and>
           snd (createBooking env st d) = st\<lparr>bookings := bookings st @ [b]\<rparr>)) \<and>
   (booking_error env = None \<and> seats_error env = None \<and> update_error env = Some e \<longrightarrow>
      fst (createBooking env st d) = Inl e \<and>
      (\<exists>b rows. bk_id b = new_id env \<and> length rows = length (bd_seats d) \<and>
           snd (createBooking env st d) =
             st\<lparr>bookings := bookings st @ [b], booking_seats := booking_seats st @ rows\<rparr>))"
proof -
  define b where "b = \<lparr>bk_id = new_id env, bk_name = bd_name d, bk_phone = bd_phone d,
                bk_email = or_null (bd_email d), bk_theater_type = bd_theater_type d,
                bk_payment_method = bd_payment_method d, bk_receipt_url = or_null (bd_receipt_url d),
                bk_status = js ''completed'', bk_total_seats = length (bd_seats d)\<rparr>"
  define rows where "rows = map (\<lambda>seat. \<lparr>bs_booking_id = bk_id b, bs_row = row seat,
                           bs_seat_number = seat_number seat,
                           bs_theater_type = bd_theater_type d\<rparr>) (bd_seats d)"
  have id: "bk_id b = new_id env" and len: "length rows = length (bd_seats d)"
    by (simp_all add: b_def rows_def)
  have one: "createBooking env st d = (Inl e, st)" if "booking_error env = Some e"
    using that by (simp add: createBooking_def insert_booking_def)
  have two: "createBooking env st d = (Inl e, st\<lparr>bookings := bookings st @ [b]\<rparr>)"
    if "booking_error env = None" "seats_error env = Some e"
    using that by (simp add: createBooking_def insert_booking_def insert_booking_seats_def b_def)
  have three: "createBooking env st d =
        (Inl e, st\<lparr>bookings := bookings st @ [b], booking_seats := booking_seats st @ rows\<rparr>)"
    if "booking_error env = None" "seats_error env = None" "update_error env = Some e"
    using that
    by (simp add: createBooking_def insert_booking_def insert_booking_seats_def
        update_unavailable_def b_def rows_def)
  from two id have two': "fst (createBooking env st d) = Inl e \<and>
      (\<exists>b. bk_id b = new_id env \<and>
           snd (createBooking env st d) = st\<lparr>bookings := bookings st @ [b]\<rparr>)"
    if "booking_error env = None" "seats_error env = Some e"
    using that by (metis fst_conv snd_conv)
  from three id len have three': "fst (createBooking env st d) = Inl e \<and>
      (\<exists>b rows. bk_id b = new_id env \<and> length rows = length (bd_seats d) \<and>
           snd (createBooking env st d) =
             st\<lparr>bookings := bookings st @ [b], booking_seats := booking_seats st @ rows\<rparr>)"
    if "booking_error env = None" "seats_error env = None" "update_error env = Some e"
    using that by (metis fst_conv snd_conv)
  from one two' three' show ?thesis by blast
qed


theorem createBooking_no_rollback_witness:
  "fst (createBooking claims_fail sample_store sample_booking)
     = Inl (StoreError ''insert into booking_seats failed'') \<and>
   map bk_id (bookings (snd (createBooking claims_fail sample_store sample_booking))) = [js ''RT-1'']"
  using createBooking_no_rollback
    [of claims_fail "StoreError ''insert into booking_seats failed''" sample_store sample_booking]
  by (auto simp add: claims_fail_def store_ok_def sample_store_def)

text \<open>
  C3. A successful \<open>createBooking\<close> with seats S appends exactly \<open>|S|\<close> rows to
  \<open>booking_seats\<close>, one per seat of S in order, each with the id of the new booking,
  and the new booking row records \<open>total_seats = |S|\<close>. When no older claim carries that
  id, the claims of the new booking in the store are exactly these \<open>|S|\<close> rows.
\<close>

theorem createBooking_seat_claims:
  assumes "createBooking env st d = (Inr b, st')"
  shows "\<exists>rows. booking_seats st' = booking_seats st @ rows \<and>
           length rows = length (bd_seats d) \<and>
           (\<forall>c \<in> set rows. bs_booking_id c = bk_id b) \<and>
           map (\<lambda>c. (bs_row c, bs_seat_number c)) rows = map (\<lambda>s. (row s, seat_number s)) (bd_seats d) \<and>
           bk_total_seats b = length (bd_seats d) \<and>
           bookings st' = bookings st @ [b] \<and>
           ((\<forall>c \<in> set (booking_seats st). bs_booking_id c \<noteq> bk_id b) \<longrightarrow>
              length (filter (\<lambda>c. bs_booking_id c = bk_id b) (booking_seats st')) = length (bd_seats d))"
proof -
  define rows where "rows = map (\<lambda>seat. \<lparr>bs_booking_id = new_id env, bs_row = row seat,
                           bs_seat_number = seat_number seat,
                           bs_theater_type = bd_theater_type d\<rparr>) (bd_seats d)"
  from assms have ok: "booking_error env = None" "seats_error env = None" "update_error env = None"
    using createBooking_success by blast+
  from createBooking_result [OF ok, of st d] assms
  have b: "bk_id b = new_id env" "bk_total_seats b = length (bd_seats d)"
    and st': "booking_seats st' = booking_seats st @ rows" "bookings st' = bookings st @ [b]"
    by (auto simp add: Let_def rows_def)
  have len: "length rows = length (bd_seats d)"
    by (simp add: rows_def)
  have ids: "\<forall>c \<in> set rows. bs_booking_id c = bk_id b"
    by (simp add: rows_def b)
  have same: "map (\<lambda>c. (bs_row c, bs_seat_number c)) rows = map (\<lambda>s. (row s, seat_number s)) (bd_seats d)"
    by (simp add: rows_def comp_def)
  have all: "filter (\<lambda>c. bs_booking_id c = bk_id b) rows = rows"
    using ids by (simp add: filter_id_conv)
  have fresh: "length (filter (\<lambda>c. bs_booking_id c = bk_id b) (booking_seats st')) = length (bd_seats d)"
    if "\<forall>c \<in> set (booking_seats st). bs_booking_id c \<noteq> bk_id b"
  proof -
    from that have "filter (\<lambda>c. bs_booking_id c = bk_id b) (booking_seats st) = []"
      by (simp add: filter_empty_conv)
    then show ?thesis by (simp add: st' all len)
  qed
  from st' len ids same b fresh show ?thesis by blast
qed

theorem createBooking_seat_claims_witness:
  "\<exists>b st'. createBooking store_ok sample_store sample_booking = (Inr b, st') \<and>
      bk_total_seats b = 1 \<and>
      length (filter (\<lambda>c. bs_booking_id c = bk_id b) (booking_seats st')) = 1"
proof -
  from sample_booking_result obtain b st'
    where r: "createBooking store_ok sample_store sample_booking = (Inr b, st')"
    by blast
  from createBooking_seat_claims [OF r]
  have "bk_total_seats b = length (bd_seats sample_booking)"
    and "(\<forall>c \<in> set (booking_seats sample_store). bs_booking_id c \<noteq> bk_id b) \<longrightarrow>
         length (filter (\<lambda>c. bs_booking_id c = bk_id b) (booking_seats st')) = length (bd_seats sample_booking)"
    by blast+
  then have "bk_total_seats b = 1 \<and>
      length (filter (\<lambda>c. bs_booking_id c = bk_id b) (booking_seats st')) = 1"
    by (simp add: sample_store_def sample_booking_def)
  with r show ?thesis by blast
qed

section \<open>Properties of the inventory reader\<close>

lemma getAvailableSeats_ok:
  "getAvailableSeats None st t =
     Inr (order_row_number (filter (\<lambda>s. theater_type s = t \<and> is_available s) (theater_seats st)))"
  by (simp add: getAvailableSeats_def select_seats_def try_catch_def)

lemma getAvailableSeats_failed: "getAvailableSeats (Some e) st t = Inr []"
  by (simp add: getAvailableSeats_def select_seats_def try_catch_def)

lemma getBookedSeats_ok:
  "getBookedSeats None st t =
     Inr (map (\<lambda>s. \<lparr>row = row s, seat_number = seat_number s\<rparr>)
            (order_row_number (filter (\<lambda>s. theater_type s = t \<and> \<not> is_available s) (theater_seats st))))"
  by (simp add: getBookedSeats_def select_seats_def try_catch_def)

lemma getBookedSeats_failed: "getBookedSeats (Some e) st t = Inr []"
  by (simp add: getBookedSeats_def select_seats_def try_catch_def)

lemma mset_order_row_number: "mset (order_row_number rows) = mset rows"
  by (simp add: order_row_number_def)

lemma set_order_row_number: "set (order_row_number rows) = set rows"
  by (simp add: order_row_number_def)

lemma sorted_order_row_number:
  "sorted_wrt (\<lambda>a b. row a < row b \<or> (row a = row b \<and> seat_number a \<le> seat_number b))
     (order_row_number rows)"
proof -
  have "sorted (map (\<lambda>s. (row s, seat_number s)) (order_row_number rows))"
    by (simp add: order_row_number_def)
  then have "sorted_wrt (\<lambda>a b. (row a, seat_number a) \<le> (row b, seat_number b)) (order_row_number rows)"
    by (simp add: sorted_map)
  moreover have "(row a, seat_number a) \<le> (row b, seat_number b) \<longleftrightarrow>
      row a < row b \<or> (row a = row b \<and> seat_number a \<le> seat_number b)" for a b :: "'a seat_ref_scheme"
    by (auto simp add: less_eq_prod_def)
  ultimately show ?thesis by simp
qed

text \<open>
  C6. \<open>getAvailableSeats\<close> never throws. When the read succeeds it returns exactly the
  seats of the tier whose availability flag is true, ordered by row and then by seat
  number, both ascending; when the read fails it returns the empty list.
\<close>

theorem getAvailableSeats_spec:
  "(\<exists>seats. getAvailableSeats fault st t = Inr seats) \<and>
   (fault = None \<longrightarrow>
      (\<exists>seats. getAvailableSeats fault st t = Inr seats \<and>
         mset seats = mset (filter (\<lambda>s. theater_type s = t \<and> is_available s) (theater_seats st)) \<and>
         sorted_wrt (\<lambda>a b. row a < row b \<or> (row a = row b \<and> seat_number a \<le> seat_number b)) seats)) \<and>
   (fault \<noteq> None \<longrightarrow> getAvailableSeats fault st t = Inr [])"
proof (cases fault)
  case None
  then show ?thesis
    by (simp add: getAvailableSeats_ok mset_order_row_number sorted_order_row_number)
next
  case (Some e)
  then show ?thesis
    by (simp add: getAvailableSeats_failed)
qed

theorem getAvailableSeats_spec_witness:
  "(\<exists>seats. getAvailableSeats None sample_store Vip = Inr seats \<and>
      map (\<lambda>s. (row s, seat_number s)) seats = [(js ''A'', 1), (js ''B'', 1)]) \<and>
   getAvailableSeats (Some (StoreError ''network'')) sample_store Vip = Inr []"
  using getAvailableSeats_spec [of None sample_store Vip]
    getAvailableSeats_spec [of "Some (StoreError ''network'')" sample_store Vip]
  by (simp add: getAvailableSeats_ok order_row_number_def sample_store_def js_def)

lemma available_in_table:
  assumes "getAvailableSeats f st t = Inr avail" "a \<in> set avail"
  shows "a \<in> set (theater_seats st) \<and> theater_type a = t \<and> is_available a"
proof (cases f)
  case None
  with assms show ?thesis
    by (auto simp add: getAvailableSeats_ok set_order_row_number)
next
  case (Some e)
  with assms show ?thesis
    by (simp add: getAvailableSeats_failed)
qed

lemma booked_in_table:
  assumes "getBookedSeats f st t = Inr booked" "b \<in> set booked"
  shows "\<exists>s \<in> set (theater_seats st). theater_type s = t \<and> \<not> is_available s \<and>
           row s = row b \<and> seat_number s = seat_number b"
proof (cases f)
  case None
  with assms obtain x where "x \<in> set (theater_seats st)" "theater_type x = t" "\<not> is_available x"
      "b = \<lparr>row = row x, seat_number = seat_number x\<rparr>"
    by (auto simp add: getBookedSeats_ok set_order_row_number)
  then show ?thesis
    by (intro bexI [of _ x]) simp_all
next
  case (Some e)
  with assms show ?thesis
    by (simp add: getBookedSeats_failed)
qed

lemma seats_unique_same_seat:
  assumes "seats_unique st" "a \<in> set (theater_seats st)" "s \<in> set (theater_seats st)"
    and "theater_type a = theater_type s" "row a = row s" "seat_number a = seat_number s"
  shows "a = s"
proof -
  from assms(1) have "inj_on (\<lambda>s. (theater_type s, row s, seat_number s)) (set (theater_seats st))"
    by (simp add: seats_unique_def distinct_map)
  with assms(2-) show ?thesis
    by (auto dest: inj_onD)
qed

text \<open>
  C7. In a store that keeps the data model's invariant (one row per tier, row and
  number), no seat of a tier is both in the result of \<open>getAvailableSeats\<close> and in the
  result of \<open>getBookedSeats\<close> for that tier, whether the two reads succeed or fail.
\<close>

theorem available_booked_disjoint:
  assumes "seats_unique st"
    and "getAvailableSeats f1 st t = Inr avail"
    and "getBookedSeats f2 st t = Inr booked"
  shows "\<not> (\<exists>a \<in> set avail. \<exists>b \<in> set booked. row a = row b \<and> seat_number a = seat_number b)"
proof
  assume "\<exists>a \<in> set avail. \<exists>b \<in> set booked. row a = row b \<and> seat_number a = seat_number b"
  then obtain a b where ab: "a \<in> set avail" "b \<in> set booked"
      "row a = row b" "seat_number a = seat_number b"
    by blast
  from available_in_table [OF assms(2) ab(1)]
  have a: "a \<in> set (theater_seats st)" "theater_type a = t" "is_available a" by simp_all
  from booked_in_table [OF assms(3) ab(2)]
  obtain s where s: "s \<in> set (theater_seats st)" "theater_type s = t" "\<not> is_available s"
      "row s = row b" "seat_number s = seat_number b"
    by blast
  from seats_unique_same_seat [OF assms(1) a(1) s(1)] a(2) s(2,4,5) ab(3,4)
  have "a = s" by simp
  with a(3) s(3) show False by simp
qed


theorem available_booked_disjoint_witness:
  "seats_unique sample_store \<and>
   getAvailableSeats None sample_store Vip =
     Inr [\<lparr>row = js ''A'', seat_number = 1, seat_id = js ''7c9e6679-7425-40de-944b-e07fc1f90ae7'',
          theater_type = Vip, is_available = True, created_at = js ''2026-02-28''\<rparr>,
          \<lparr>row = js ''B'', seat_number = 1, seat_id = js ''0e37df36-f698-11e6-8dd4-cb9ced3df976'',
          theater_type = Vip, is_available = True, created_at = js ''2026-02-28''\<rparr>] \<and>
   getBookedSeats None sample_store Vip = Inr [\<lparr>row = js ''A'', seat_number = 2\<rparr>] \<and>
   \<not> (\<exists>a \<in> set [\<lparr>row = js ''A'', seat_number = 1, seat_id = js ''7c9e6679-7425-40de-944b-e07fc1f90ae7'',
          theater_type = Vip, is_available = True, created_at = js ''2026-02-28''\<rparr>,
          \<lparr>row = js ''B'', seat_number = 1, seat_id = js ''0e37df36-f698-11e6-8dd4-cb9ced3df976'',
          theater_type = Vip, is_available = True, created_at = js ''2026-02-28''\<rparr>].
      \<exists>b \<in> set [\<lparr>row = js ''A'', seat_number = 2\<rparr>]. row a = row b \<and> seat_number a = seat_number b)"
proof -
  have u: "seats_unique sample_store"
    by (simp add: seats_unique_def sample_store_def js_def)
  have a: "getAvailableSeats None sample_store Vip =
     Inr [\<lparr>row = js ''A'', seat_number = 1, seat_id = js ''7c9e6679-7425-40de-944b-e07fc1f90ae7'',
          theater_type = Vip, is_available = True, created_at = js ''2026-02-28''\<rparr>,
          \<lparr>row = js ''B'', seat_number = 1, seat_id = js ''0e37df36-f698-11e6-8dd4-cb9ced3df976'',
          theater_type = Vip, is_available = True, created_at = js ''2026-02-28''\<rparr>]"
    by (simp add: getAvailableSeats_ok order_row_number_def sample_store_def js_def)
  have b: "getBookedSeats None sample_store Vip = Inr [\<lparr>row = js ''A'', seat_number = 2\<rparr>]"
    by (simp add: getBookedSeats_ok order_row_number_def sample_store_def js_def)
  from available_booked_disjoint [OF u a b] u a b show ?thesis by blast
qed










section \<open>Properties of the booking wizard\<close>

lemma getBookedSeats_Inr: "\<exists>booked. getBookedSeats fault st t = Inr booked"
  by (cases fault) (simp_all add: getBookedSeats_def select_seats_def try_catch_def)

text \<open>
  C5. After \<open>loadBookedSeats\<close> for a tier, the maximum quantity is
  \<open>min (totalCapacity - bookedCount) 10\<close>, where \<open>totalCapacity\<close> is the sum of the seat
  counts of the tier's rows and \<open>bookedCount\<close> the size of the set of booked seats, and
  \<open>handleQuantityChange\<close> stores the entered quantity clamped to at most that maximum.
  With a capacity of 23 and 20 booked seats, a requested quantity of 10 becomes 3.
\<close>

theorem quantity_clamp:
  "let w1 = loadBookedSeats seatLayout fault st t w;
       totalCapacity = int (sum_list (map snd (seatLayout t)));
       bookedCount = int (card (bookedSeats w1));
       w2 = handleQuantityChange parsed w1
   in (\<exists>booked. getBookedSeats fault st t = Inr booked \<and> bookedSeats w1 = set (map seat_key booked)) \<and>
      maxQuantity w1 = min (totalCapacity - bookedCount) 10 \<and>
      quantity (formData w2) = min (or_zero parsed) (maxQuantity w1) \<and>
      quantity (formData w2) \<le> min (totalCapacity - bookedCount) 10 \<and>
      (totalCapacity = 23 \<and> bookedCount = 20 \<and> parsed = Some 10 \<longrightarrow> quantity (formData w2) = 3)"
proof -
  obtain booked where b: "getBookedSeats fault st t = Inr booked"
    using getBookedSeats_Inr by blast
  have le: "min x (min y (10::int)) \<le> y \<and> min x (min y 10) \<le> 10" for x y :: int
    by (simp add: min_def)
  from b show ?thesis
    by (simp add: loadBookedSeats_def handleQuantityChange_def Let_def or_zero_def le)
qed

theorem quantity_clamp_witness:
  "int (sum_list (map snd (vip_layout Vip))) = 23 \<and>
   int (card (bookedSeats (loadBookedSeats vip_layout None nearly_sold_out Vip new_wizard))) = 20 \<and>
   quantity (formData (handleQuantityChange (Some 10)
      (loadBookedSeats vip_layout None nearly_sold_out Vip new_wizard))) = 3"
proof -
  have total: "int (sum_list (map snd (vip_layout Vip))) = 23"
    by (simp add: vip_layout_def)
  have "getBookedSeats None nearly_sold_out Vip = Inr
      (map (\<lambda>i. \<lparr>row = js ''A'', seat_number = i\<rparr>) [1..<8] @
       map (\<lambda>i. \<lparr>row = js ''B'', seat_number = i\<rparr>) [1..<9] @
       map (\<lambda>i. \<lparr>row = js ''C'', seat_number = i\<rparr>) [1..<6])"
    by (simp add: getBookedSeats_def select_seats_def try_catch_def order_row_number_def
       nearly_sold_out_def seed_row_def js_def upt_rec [of _ "numeral _"] upt_rec [of _ "Suc _"])
  then have booked: "int (card (bookedSeats (loadBookedSeats vip_layout None nearly_sold_out Vip new_wizard))) = 20"
    by (simp add: loadBookedSeats_def Let_def seat_key_def js_def card_insert_if
       upt_rec [of _ "numeral _"] upt_rec [of _ "Suc _"])
  from quantity_clamp [of vip_layout None nearly_sold_out Vip new_wizard "Some 10"] total booked
  show ?thesis by (simp add: Let_def or_zero_def)
qed


section \<open>Properties of the ticket generator\<close>

lemma generateIndividualTicket_no_context:
  "\<not> context2d (document (canvases b)) \<Longrightarrow>
   generateIndividualTicket document ticketInfo b = (Pending, b\<lparr>canvases := Suc (canvases b)\<rparr>)"
  by (simp add: generateIndividualTicket_def Let_def)

lemma generateIndividualTicket_context:
  "context2d (document (canvases b)) \<Longrightarrow>
   generateIndividualTicket document ticketInfo b =
     (Resolved (case toBlob (document (canvases b)) of None \<Rightarrow> [] | Some blob \<Rightarrow> blob),
      b\<lparr>canvases := Suc (canvases b)\<rparr>)"
  by (simp add: generateIndividualTicket_def Let_def)

text \<open>
  C8. When \<open>getContext('2d')\<close> gives no context, the promise of
  \<open>generateIndividualTicket\<close> stays pending: it is neither resolved with an image nor
  rejected with an error. \<open>downloadSingleTicket\<close> and \<open>downloadMultipleTickets\<close> then wait
  for ever on that ticket and trigger no download for it.
\<close>

theorem generateIndividualTicket_silent:
  assumes "\<not> context2d (document (canvases b))"
  shows "fst (generateIndividualTicket document ticketInfo b) = Pending \<and>
         (\<forall>blob. fst (generateIndividualTicket document ticketInfo b) \<noteq> Resolved blob) \<and>
         (\<forall>e. fst (generateIndividualTicket document ticketInfo b) \<noteq> Rejected e) \<and>
         downloads (snd (generateIndividualTicket document ticketInfo b)) = downloads b \<and>
         fst (downloadSingleTicket document ticketInfo b) = Pending \<and>
         downloads (snd (downloadSingleTicket document ticketInfo b)) = downloads b \<and>
         fst (downloadMultipleTickets document (ticketInfo # tickets) b) = Pending \<and>
         downloads (snd (downloadMultipleTickets document (ticketInfo # tickets) b)) = downloads b"
  using assms
  by (simp add: generateIndividualTicket_no_context downloadSingleTicket_def)

theorem generateIndividualTicket_silent_witness:
  "\<not> context2d (no_context (canvases new_browser)) \<and>
   fst (generateIndividualTicket no_context sample_ticket new_browser) = Pending \<and>
   downloads (snd (downloadSingleTicket no_context sample_ticket new_browser)) = []"
  using generateIndividualTicket_silent [of no_context new_browser sample_ticket]
  by (simp add: no_context_def new_browser_def)

lemma downloadMultipleTickets_contexts:
  assumes "\<forall>i < length tickets. context2d (document (canvases b + i))"
  shows "\<exists>blobs. length blobs = length tickets \<and>
           downloadMultipleTickets document tickets b =
             (Resolved (), b\<lparr>canvases := canvases b + length tickets,
                              downloads := downloads b @ zip (map download_name tickets) blobs\<rparr>)"
  using assms
proof (induction tickets arbitrary: b)
  case Nil
  show ?case by simp
next
  case (Cons ticket tickets)
  from Cons.prems have first: "context2d (document (canvases b))"
    by force
  define blob where "blob = (case toBlob (document (canvases b)) of None \<Rightarrow> [] | Some x \<Rightarrow> x)"
  define b1 where "b1 = click_download ticket blob (b\<lparr>canvases := Suc (canvases b)\<rparr>)"
  have step: "downloadMultipleTickets document (ticket # tickets) b = downloadMultipleTickets document tickets b1"
    using first by (simp add: generateIndividualTicket_context blob_def b1_def)
  have b1: "canvases b1 = Suc (canvases b)" "downloads b1 = downloads b @ [(download_name ticket, blob)]"
    by (simp_all add: b1_def click_download_def)
  have "\<forall>i < length tickets. context2d (document (canvases b1 + i))"
  proof (intro allI impI)
    fix i assume "i < length tickets"
    then have "Suc i < length (ticket # tickets)" by simp
    with Cons.prems have "context2d (document (canvases b + Suc i))" by blast
    then show "context2d (document (canvases b1 + i))" by (simp add: b1)
  qed
  from Cons.IH [OF this] obtain blobs where blobs: "length blobs = length tickets"
    "downloadMultipleTickets document tickets b1 =
       (Resolved (), b1\<lparr>canvases := canvases b1 + length tickets,
                        downloads := downloads b1 @ zip (map download_name tickets) blobs\<rparr>)"
    by blast
  have "b1\<lparr>canvases := canvases b1 + length tickets,
            downloads := downloads b1 @ zip (map download_name tickets) blobs\<rparr> =
        b\<lparr>canvases := canvases b + length (ticket # tickets),
          downloads := downloads b @ zip (map download_name (ticket # tickets)) (blob # blobs)\<rparr>"
    by (simp add: b1_def click_download_def)
  with step blobs(2)
  have "downloadMultipleTickets document (ticket # tickets) b =
      (Resolved (), b\<lparr>canvases := canvases b + length (ticket # tickets),
         downloads := downloads b @ zip (map download_name (ticket # tickets)) (blob # blobs)\<rparr>)"
    by (simp only:)
  moreover have "length (blob # blobs) = length (ticket # tickets)"
    by (simp add: blobs)
  ultimately show ?case by blast
qed

lemma download_name_ticketInfos:
  "map download_name (ticketInfos bId fd tt today seats) =
     map (\<lambda>s. js ''Ticket-'' @ bId @ js ''-'' @ row s @ num_str (seat_number s) @ js ''.png'') seats"
  by (simp add: ticketInfos_def download_name_def comp_def)

text \<open>
  C9, as stated, fails when no drawing context is given: the booking of seat A1 then
  triggers no download at all.
\<close>

theorem downloadMultipleTickets_counterexample:
  "\<not> length (downloads (snd (downloadMultipleTickets no_context
        (ticketInfos (js ''RT-1'') sample_form (Some Vip) (js ''2/28/2026'') [\<lparr>row = js ''A'', seat_number = 1\<rparr>])
        new_browser))) = length [\<lparr>row = js ''A'', seat_number = 1\<rparr>]"
  by (simp add: ticketInfos_def generateIndividualTicket_def no_context_def new_browser_def)


text \<open>
  C9, amended. When every canvas gives a drawing context, \<open>downloadMultipleTickets\<close> on
  the tickets of a booking with seats S ends and triggers exactly \<open>|S|\<close> downloads, one
  per seat in the order of S, and the file for the seat with row r and number n is
  named \<open>Ticket-<bookingId>-<r><n>.png\<close>.
\<close>

theorem downloadMultipleTickets_names:
  assumes "\<forall>i < length seats. context2d (document (canvases b + i))"
  shows "\<exists>blobs. length blobs = length seats \<and>
           downloadMultipleTickets document (ticketInfos bId fd tt today seats) b =
             (Resolved (),
              b\<lparr>canvases := canvases b + length seats,
                downloads := downloads b @
                  zip (map (\<lambda>s. js ''Ticket-'' @ bId @ js ''-'' @ row s @ num_str (seat_number s) @ js ''.png'') seats)
                      blobs\<rparr>)"
proof -
  have len: "length (ticketInfos bId fd tt today seats) = length seats"
    by (simp add: ticketInfos_def)
  with assms have "\<forall>i < length (ticketInfos bId fd tt today seats). context2d (document (canvases b + i))"
    by simp
  from downloadMultipleTickets_contexts [OF this] show ?thesis
    by (simp add: len download_name_ticketInfos)
qed

theorem downloadMultipleTickets_names_witness:
  "context2d (painted (canvases new_browser)) \<and>
   context2d (painted (canvases new_browser + 1)) \<and>
   map fst (downloads (snd (downloadMultipleTickets painted
      (ticketInfos (js ''RT-1'') sample_form (Some Vip) (js ''2/28/2026'')
         [\<lparr>row = js ''A'', seat_number = 1\<rparr>, \<lparr>row = js ''B'', seat_number = 12\<rparr>]) new_browser)))
    = [js ''Ticket-RT-1-A1.png'', js ''Ticket-RT-1-B12.png'']"
proof -
  have ctx: "\<forall>i < length [\<lparr>row = js ''A'', seat_number = 1\<rparr>, \<lparr>row = js ''B'', seat_number = 12\<rparr>].
       context2d (painted (canvases new_browser + i))"
    by (simp add: painted_def)
  let ?seats = "[\<lparr>row = js ''A'', seat_number = 1\<rparr>, \<lparr>row = js ''B'', seat_number = 12\<rparr>]"
  let ?names = "map (\<lambda>s. js ''Ticket-'' @ js ''RT-1'' @ js ''-'' @ row s @ num_str (seat_number s) @ js ''.png'') ?seats"
  from downloadMultipleTickets_names [OF ctx, of "js ''RT-1''" sample_form "Some Vip" "js ''2/28/2026''"]
  obtain blobs where len: "length blobs = length ?seats"
    and eq: "downloadMultipleTickets painted
        (ticketInfos (js ''RT-1'') sample_form (Some Vip) (js ''2/28/2026'') ?seats) new_browser =
      (Resolved (), new_browser\<lparr>canvases := canvases new_browser + length ?seats,
          downloads := downloads new_browser @ zip ?names blobs\<rparr>)"
    by blast
  from len have "map fst (zip ?names blobs) = ?names"
    by (intro map_fst_zip) simp
  moreover have "downloads (snd (downloadMultipleTickets painted
        (ticketInfos (js ''RT-1'') sample_form (Some Vip) (js ''2/28/2026'') ?seats) new_browser)) =
      downloads new_browser @ zip ?names blobs"
    unfolding eq by simp
  moreover have "downloads new_browser = []"
    by (simp add: new_browser_def)
  ultimately have "map fst (downloads (snd (downloadMultipleTickets painted
        (ticketInfos (js ''RT-1'') sample_form (Some Vip) (js ''2/28/2026'') ?seats) new_browser))) = ?names"
    by simp
  moreover have "?names = [js ''Ticket-RT-1-A1.png'', js ''Ticket-RT-1-B12.png'']"
    by (simp add: js_def)
  ultimately show ?thesis
    by (simp add: painted_def)
qed


section \<open>Properties of the seat picker\<close>

lemma findIndex_lower: "- 1 \<le> findIndex p xs"
  by (induction xs) (simp_all add: Let_def)

lemma findIndex_none: "findIndex p xs < 0 \<longleftrightarrow> (\<forall>x \<in> set xs. \<not> p x)"
proof (induction xs)
  case Nil
  show ?case by simp
next
  case (Cons x xs)
  from findIndex_lower [of p xs] have "findIndex p xs < 0 \<longleftrightarrow> \<not> 0 \<le> findIndex p xs"
    by linarith
  with Cons show ?case
    by (auto simp add: Let_def)
qed

lemma findIndex_found:
  "0 \<le> findIndex p xs \<Longrightarrow>
   nat (findIndex p xs) < length xs \<and> p (xs ! nat (findIndex p xs))"
proof (induction xs)
  case Nil
  then show ?case by simp
next
  case (Cons x xs)
  show ?case
  proof (cases "p x")
    case True
    then show ?thesis by simp
  next
    case False
    with Cons.prems have pos: "0 \<le> findIndex p xs"
      by (simp add: Let_def split: if_splits)
    with Cons.IH have "nat (findIndex p xs) < length xs" "p (xs ! nat (findIndex p xs))"
      by simp_all
    with False pos show ?thesis
      by (simp add: Let_def nat_add_distrib)
  qed
qed

lemma set_splice1: "set (splice1 i xs) \<subseteq> set xs"
  unfolding splice1_def by (auto dest: in_set_takeD in_set_dropD)

lemma length_splice1: "i < length xs \<Longrightarrow> length (splice1 i xs) = length xs - 1"
  unfolding splice1_def by simp

lemma distinct_remove_nth:
  assumes "distinct ys"
  shows "distinct (take i ys @ drop (Suc i) ys)"
proof -
  from assms have "distinct (take i ys @ drop i ys)" by simp
  then have "set (take i ys) \<inter> set (drop i ys) = {}"
    by (simp only: distinct_append)
  moreover have "set (drop (Suc i) ys) \<subseteq> set (drop i ys)"
    by (rule set_drop_subset_set_drop) simp
  ultimately have "set (take i ys) \<inter> set (drop (Suc i) ys) = {}"
    by blast
  with assms show ?thesis
    by (simp add: distinct_take distinct_drop)
qed

lemma distinct_map_splice1: "distinct (map f xs) \<Longrightarrow> distinct (map f (splice1 i xs))"
  using distinct_remove_nth [of "map f xs" i]
  by (simp add: splice1_def take_map drop_map)

lemma splice1_removes:
  assumes "distinct (map f xs)" "i < length xs"
  shows "f (xs ! i) \<notin> f ` set (splice1 i xs)"
proof -
  from assms(2) have "xs = take i xs @ xs ! i # drop (Suc i) xs"
    by (simp add: id_take_nth_drop)
  then have "map f xs = map f (take i xs) @ f (xs ! i) # map f (drop (Suc i) xs)"
    by (metis list.simps(9) map_append)
  with assms(1) have "distinct (map f (take i xs) @ f (xs ! i) # map f (drop (Suc i) xs))"
    by simp
  then show ?thesis
    by (auto simp add: splice1_def)
qed

lemma toggle_inv:
  assumes "picker_inv available qty selected"
  shows "picker_inv available qty (toggle available qty seat selected)"
proof (cases "seat_key seat \<in> available")
  case True
  with assms show ?thesis by (simp add: toggle_def)
next
  case False
  let ?p = "\<lambda>s. row s = row seat \<and> seat_number s = seat_number seat"
  show ?thesis
  proof (cases "0 \<le> findIndex ?p selected")
    case True
    then have i: "nat (findIndex ?p selected) < length selected"
      using findIndex_found [of ?p selected] by simp
    have "toggle available qty seat selected = splice1 (nat (findIndex ?p selected)) selected"
      using False True by (simp add: toggle_def Let_def)
    moreover from assms set_splice1 [of "nat (findIndex ?p selected)" selected]
    have "\<forall>s \<in> set (splice1 (nat (findIndex ?p selected)) selected). seat_key s \<notin> available"
      by (auto simp add: picker_inv_def)
    moreover from assms
    have "distinct (map (\<lambda>s. (row s, seat_number s)) (splice1 (nat (findIndex ?p selected)) selected))"
      by (simp add: picker_inv_def distinct_map_splice1)
    moreover from assms i
    have "int (length (splice1 (nat (findIndex ?p selected)) selected)) \<le> max 0 qty"
      by (simp add: picker_inv_def length_splice1)
    ultimately show ?thesis
      by (simp add: picker_inv_def)
  next
    case no: False
    then have absent: "\<forall>s \<in> set selected. \<not> ?p s"
      using findIndex_none [of ?p selected] by simp
    show ?thesis
    proof (cases "int (length selected) < qty")
      case True
      with False no have "toggle available qty seat selected = selected @ [seat]"
        by (simp add: toggle_def Let_def)
      moreover from absent have "(row seat, seat_number seat) \<notin> (\<lambda>s. (row s, seat_number s)) ` set selected"
        by auto
      ultimately show ?thesis
        using assms False True by (simp add: picker_inv_def)
    next
      case full: False
      with False no have "toggle available qty seat selected = selected"
        by (simp add: toggle_def Let_def)
      with assms show ?thesis by simp
    qed
  qed
qed

lemma toggles_snoc:
  "toggles available qty (clicks @ [seat]) = toggle available qty seat (toggles available qty clicks)"
  by (simp add: toggles_def)

lemma toggles_inv: "picker_inv available qty (toggles available qty clicks)"
proof (induction clicks rule: rev_induct)
  case Nil
  show ?case by (simp add: toggles_def picker_inv_def)
next
  case (snoc seat clicks)
  then show ?case by (simp add: toggles_snoc toggle_inv)
qed

lemma toggle_selected_removes:
  assumes "picker_inv available qty selected" "seat \<in> set selected"
  shows "seat \<notin> set (toggle available qty seat selected)"
proof -
  let ?p = "\<lambda>s. row s = row seat \<and> seat_number s = seat_number seat"
  let ?i = "nat (findIndex ?p selected)"
  from assms have free: "seat_key seat \<notin> available"
    by (simp add: picker_inv_def)
  from assms(2) have "\<not> (\<forall>s \<in> set selected. \<not> ?p s)" by blast
  then have "\<not> findIndex ?p selected < 0"
    using findIndex_none [of ?p selected] by blast
  then have found: "0 \<le> findIndex ?p selected" by simp
  then have i: "?i < length selected" "?p (selected ! ?i)"
    using findIndex_found [of ?p selected] by simp_all
  from free found have t: "toggle available qty seat selected = splice1 ?i selected"
    by (simp add: toggle_def Let_def)
  from i(2) have same: "(row (selected ! ?i), seat_number (selected ! ?i)) = (row seat, seat_number seat)"
    by simp
  from assms(1) have "distinct (map (\<lambda>s. (row s, seat_number s)) selected)"
    by (simp add: picker_inv_def)
  from splice1_removes [OF this i(1)] same
  have "(row seat, seat_number seat) \<notin> (\<lambda>s. (row s, seat_number s)) ` set (splice1 ?i selected)"
    by simp
  then have "seat \<notin> set (splice1 ?i selected)" by force
  with t show ?thesis by simp
qed

text \<open>
  C10, as stated, fails for a negative quantity: the selection is empty, and its size 0
  exceeds the quantity -1.
\<close>

theorem toggles_size_counterexample:
  "\<not> int (length (toggles {} (- 1) [\<lparr>row = js ''A'', seat_number = 1\<rparr>])) \<le> - 1"
  by (simp add: toggles_def toggle_def seat_key_def Let_def)


text \<open>
  C10, amended. After every sequence of clicks on a new picker, the selection holds no
  booked seat (a click on a booked seat leaves it unchanged), holds no row and number
  twice, and is no longer than the quantity, or empty when the quantity is negative; and
  a click on a selected seat removes it.
\<close>

theorem toggles_invariant:
  "let selected = toggles available qty clicks
   in (\<forall>s \<in> set selected. seat_key s \<notin> available) \<and>
      distinct (map (\<lambda>s. (row s, seat_number s)) selected) \<and>
      int (length selected) \<le> max 0 qty \<and>
      (\<forall>seat. seat_key seat \<in> available \<longrightarrow> toggle available qty seat selected = selected) \<and>
      (\<forall>seat \<in> set selected. seat \<notin> set (toggle available qty seat selected))"
proof -
  have inv: "picker_inv available qty (toggles available qty clicks)"
    by (rule toggles_inv)
  then have "\<forall>seat \<in> set (toggles available qty clicks).
      seat \<notin> set (toggle available qty seat (toggles available qty clicks))"
    using toggle_selected_removes by blast
  moreover have "\<forall>seat. seat_key seat \<in> available \<longrightarrow>
      toggle available qty seat (toggles available qty clicks) = toggles available qty clicks"
    by (simp add: toggle_def)
  ultimately show ?thesis
    using inv by (simp add: picker_inv_def Let_def)
qed

theorem toggles_invariant_witness:
  "toggles {js ''A-1''} 2
     [\<lparr>row = js ''A'', seat_number = 1\<rparr>, \<lparr>row = js ''A'', seat_number = 2\<rparr>,
      \<lparr>row = js ''A'', seat_number = 3\<rparr>, \<lparr>row = js ''A'', seat_number = 4\<rparr>,
      \<lparr>row = js ''A'', seat_number = 2\<rparr>] = [\<lparr>row = js ''A'', seat_number = 3\<rparr>] \<and>
   int (length (toggles {js ''A-1''} 2
     [\<lparr>row = js ''A'', seat_number = 1\<rparr>, \<lparr>row = js ''A'', seat_number = 2\<rparr>,
      \<lparr>row = js ''A'', seat_number = 3\<rparr>, \<lparr>row = js ''A'', seat_number = 4\<rparr>,
      \<lparr>row = js ''A'', seat_number = 2\<rparr>])) \<le> 2"
proof -
  have "toggles {js ''A-1''} 2
     [\<lparr>row = js ''A'', seat_number = 1\<rparr>, \<lparr>row = js ''A'', seat_number = 2\<rparr>,
      \<lparr>row = js ''A'', seat_number = 3\<rparr>, \<lparr>row = js ''A'', seat_number = 4\<rparr>,
      \<lparr>row = js ''A'', seat_number = 2\<rparr>] = [\<lparr>row = js ''A'', seat_number = 3\<rparr>]"
    by (simp add: toggles_def toggle_def seat_key_def splice1_def js_def Let_def)
  with toggles_invariant [of "{js ''A-1''}" 2
     "[\<lparr>row = js ''A'', seat_number = 1\<rparr>, \<lparr>row = js ''A'', seat_number = 2\<rparr>,
      \<lparr>row = js ''A'', seat_number = 3\<rparr>, \<lparr>row = js ''A'', seat_number = 4\<rparr>,
      \<lparr>row = js ''A'', seat_number = 2\<rparr>]"]
  show ?thesis by (simp add: Let_def)
qed


end
